theory Spec2Isabelle
  imports Main "HOL-Library.AList"
begin

section \<open>Python values and string helpers\<close>

text \<open>
  The scalar values that reach the access layer as where-values, insert values and
  driver results. Python's \<open>bool\<close> is a subclass of \<open>int\<close>, which
  \<open>is_int\<close> records; \<open>PObj\<close> stands for any other object (a float, a timestamp,
  ...), neither \<open>None\<close>, \<open>bool\<close>, \<open>int\<close> nor \<open>str\<close>.
\<close>

datatype pyval = PNone | PBool bool | PInt int | PStr string | PObj nat

text \<open>\<open>isinstance(v, str)\<close> and \<open>isinstance(v, int)\<close>.\<close>

fun is_str :: "pyval \<Rightarrow> bool" where
  "is_str (PStr s) = True"
| "is_str v = False"

fun is_int :: "pyval \<Rightarrow> bool" where
  "is_int (PInt n) = True"
| "is_int (PBool b) = True"
| "is_int v = False"

text \<open>\<open>s.startswith(p)\<close> and the substring test \<open>p in s\<close> on strings.\<close>

fun starts_with :: "string \<Rightarrow> string \<Rightarrow> bool" where
  "starts_with [] s = True"
| "starts_with (p # ps) [] = False"
| "starts_with (p # ps) (c # cs) = (p = c \<and> starts_with ps cs)"

fun str_contains :: "string \<Rightarrow> string \<Rightarrow> bool" where
  "str_contains p [] = (p = [])"
| "str_contains p (c # cs) = (starts_with p (c # cs) \<or> str_contains p cs)"

text \<open>\<open>sep.join(xs)\<close>.\<close>

fun join :: "string \<Rightarrow> string list \<Rightarrow> string" where
  "join sep [] = []"
| "join sep [x] = x"
| "join sep (x # y # ys) = x @ sep @ join sep (y # ys)"

text \<open>The decimal text of an integer, as an f-string prints it.\<close>

definition digit_char :: "nat \<Rightarrow> char" where
  "digit_char d = char_of (48 + d)"

fun str_nat :: "nat \<Rightarrow> string" where
  "str_nat n = (if n < 10 then [digit_char n] else str_nat (n div 10) @ [digit_char (n mod 10)])"

definition str_int :: "int \<Rightarrow> string" where
  "str_int i = (if i < 0 then CHR ''-'' # str_nat (nat (- i)) else str_nat (nat i))"

section \<open>The comparator inference of the select path\<close>

text \<open>
  \<open>get_comparator\<close> returns either a comparator keyword (\<open>CStr\<close>) or a pair of a
  keyword and the value to bind instead of the caller's (\<open>CTuple\<close>).
\<close>

datatype comparator = CStr string | CTuple string pyval

fun get_comparator :: "pyval \<Rightarrow> comparator" where
  "get_comparator (PStr v) =
     (if str_contains ''null'' v
      then (if str_contains ''not'' v then CTuple ''is not'' PNone else CTuple ''is'' PNone)
      else CStr ''like'')"
| "get_comparator v = (if is_int v then CStr ''='' else CStr ''is'')"

text \<open>
  The loop of \<open>select\<close> over \<open>where.items()\<close>: it appends one condition text and one
  bound value per pair, unpacking a tuple answer of \<open>get_comparator\<close>.
\<close>

fun where_loop ::
  "(string \<times> pyval) list \<Rightarrow> string list \<Rightarrow> pyval list \<Rightarrow> string list \<times> pyval list" where
  "where_loop [] conditions passed_vars = (conditions, passed_vars)"
| "where_loop ((k, v) # rest) conditions passed_vars =
     (case get_comparator v of
        CTuple c v' \<Rightarrow>
          where_loop rest (conditions @ [k @ '' '' @ c @ '' %s'']) (passed_vars @ [v'])
      | CStr c \<Rightarrow>
          where_loop rest (conditions @ [k @ '' '' @ c @ '' %s'']) (passed_vars @ [v]))"

section \<open>The driver, the pool and the state of the access layer\<close>

text \<open>
  The database driver is outside the repository, so it is a parameter: a function from
  the server's state, a statement and its bound values to a response and the server's
  next state. A response is a driver error, a statement without a result set (the
  cursor's \<open>description\<close> is \<open>None\<close> and \<open>fetchall\<close> raises), or a result set
  with its column names and rows.
\<close>

datatype response = Failed string | NoResult | ResultSet "string list" "pyval list list"

type_synonym 'db driver = "'db \<Rightarrow> string \<Rightarrow> pyval list option \<Rightarrow> response \<times> 'db"

datatype error = KeyError string | IndexError | TypeError | ProgrammingError | DriverError string

text \<open>
  A connection object, and the calls the cursor scope makes on the pool, the connection
  and its cursor, in the order they happen. \<open>PutConn\<close> carries the connection as it is
  when it is handed back.
\<close>

record cxn =
  autocommit :: bool
  closed :: bool

datatype pool_event = GetConn | Commit | CursClose | CxnClose | PutConn cxn

text \<open>
  The state of a \<open>CoreDatabase\<close>: the server behind the driver, the attribute
  \<open>_tables\<close> (\<open>None\<close> until the first catalog query), and two histories: the statements
  passed to \<open>csr.execute\<close> and the pool events.
\<close>

record 'db database =
  server :: 'db
  cached_tables :: "pyval list option"
  sent :: "(string \<times> pyval list option) list"
  pool_log :: "pool_event list"

type_synonym ('db, 'a) action = "'db database \<Rightarrow> (error + 'a) \<times> 'db database"

section \<open>The cursor scope\<close>

text \<open>
  \<open>cursor\<close>: \<open>getconn\<close> hands out an open connection, which is set to autocommit; the
  body runs with the cursor; the \<open>finally\<close> block commits, closes the cursor, closes
  the connection and calls \<open>putconn\<close>, whether the body returned or raised.
\<close>

definition cursor :: "'db database \<Rightarrow> ('db, 'a) action \<Rightarrow> (error + 'a) \<times> 'db database" where
  "cursor self body =
     (let cxn0 = \<lparr>autocommit = False, closed = False\<rparr>;
          self1 = self\<lparr>pool_log := pool_log self @ [GetConn]\<rparr>;
          cxn1 = cxn0\<lparr>autocommit := True\<rparr>;
          (r, self2) = body self1;
          cxn2 = cxn1\<lparr>closed := True\<rparr>
      in (r, self2\<lparr>pool_log := pool_log self2 @ [Commit, CursClose, CxnClose, PutConn cxn2]\<rparr>))"

section \<open>The query executor\<close>

text \<open>What \<open>query\<close>, and \<open>select\<close> after it, return in a list.\<close>

datatype item = Scalar pyval | Tuple "pyval list" | Record "(string \<times> pyval) list"

text \<open>\<open>csr.execute(query, vals)\<close>: the driver runs the statement.\<close>

definition execute ::
  "'db driver \<Rightarrow> 'db database \<Rightarrow> string \<Rightarrow> pyval list option \<Rightarrow> response \<times> 'db database" where
  "execute drv self q vals =
     (case drv (server self) q vals of
        (resp, d) \<Rightarrow> (resp, self\<lparr>server := d, sent := sent self @ [(q, vals)]\<rparr>))"

text \<open>
  The body of the \<open>with\<close> block of \<open>query\<close>; it yields \<open>(cols, fetched)\<close>, both
  empty when nothing is fetched.
\<close>

definition query_body ::
  "'db driver \<Rightarrow> string \<Rightarrow> pyval list option \<Rightarrow> bool \<Rightarrow> bool \<Rightarrow>
   ('db, string list \<times> pyval list list) action" where
  "query_body drv q vals as_tuple no_resp self =
     (case execute drv self q vals of
        (Failed e, self') \<Rightarrow> (Inl (DriverError e), self')
      | (NoResult, self') \<Rightarrow>
          (if no_resp then (Inr ([], []), self')
           else if \<not> as_tuple then (Inl TypeError, self')
           else (Inl ProgrammingError, self'))
      | (ResultSet cs rows, self') \<Rightarrow>
          (if no_resp then (Inr ([], []), self')
           else (Inr (if \<not> as_tuple then cs else [], rows), self')))"

text \<open>\<open>{k: v for k, v in zip(cols, row)}\<close>: a later duplicate key overwrites in place.\<close>

definition mkdict :: "string list \<Rightarrow> pyval list \<Rightarrow> (string \<times> pyval) list" where
  "mkdict cols row = fold (\<lambda>(k, v) d. AList.update k v d) (zip cols row) []"

text \<open>\<open>query\<close>: \<open>None\<close> is Python's \<open>None\<close>, the value of falling off the end.\<close>

definition query ::
  "'db driver \<Rightarrow> 'db database \<Rightarrow> string \<Rightarrow> pyval list option \<Rightarrow> bool \<Rightarrow> bool \<Rightarrow>
   (error + item list option) \<times> 'db database" where
  "query drv self q vals as_tuple no_resp =
     (case cursor self (query_body drv q vals as_tuple no_resp) of
        (Inl e, self') \<Rightarrow> (Inl e, self')
      | (Inr (cols, fetched), self') \<Rightarrow>
          (if fetched \<noteq> [] then
             (if cols \<noteq> [] then (Inr (Some (map (\<lambda>row. Record (mkdict cols row)) fetched)), self')
              else if as_tuple then (Inr (Some (map Tuple fetched)), self')
              else (Inr None, self'))
           else (Inr None, self')))"

text \<open>Truthiness of an item and of a response, and \<open>x[0]\<close> on an item.\<close>

fun truthy :: "item \<Rightarrow> bool" where
  "truthy (Tuple xs) = (xs \<noteq> [])"
| "truthy (Record d) = (d \<noteq> [])"
| "truthy (Scalar v) =
     (case v of PNone \<Rightarrow> False | PBool b \<Rightarrow> b | PInt n \<Rightarrow> n \<noteq> 0 | PStr s \<Rightarrow> s \<noteq> [] | PObj n \<Rightarrow> True)"

fun index0 :: "item \<Rightarrow> error + pyval" where
  "index0 (Tuple []) = Inl IndexError"
| "index0 (Tuple (x # xs)) = Inr x"
| "index0 (Record d) = Inl (KeyError ''0'')"
| "index0 (Scalar v) = Inl TypeError"

fun index0_all :: "item list \<Rightarrow> error + pyval list" where
  "index0_all [] = Inr []"
| "index0_all (x # xs) =
     (case index0 x of
        Inl e \<Rightarrow> Inl e
      | Inr v \<Rightarrow> (case index0_all xs of Inl e \<Rightarrow> Inl e | Inr vs \<Rightarrow> Inr (v # vs)))"

section \<open>The schema cache\<close>

definition catalog_query :: string where
  "catalog_query =
     ''select table_name from information_schema.tables where table_schema = ''
     @ [CHR 0x27] @ ''public'' @ [CHR 0x27]"

text \<open>
  The property \<open>tables\<close>: the catalog query runs whenever \<open>_tables\<close> is falsy, that
  is \<open>None\<close> or an empty list.
\<close>

definition tables :: "'db driver \<Rightarrow> ('db, pyval list) action" where
  "tables drv self =
     (case cached_tables self of
        Some (t # ts) \<Rightarrow> (Inr (t # ts), self)
      | _ \<Rightarrow>
        (case query drv self catalog_query None True False of
           (Inl e, self') \<Rightarrow> (Inl e, self')
         | (Inr resp, self') \<Rightarrow>
             (case (case resp of None \<Rightarrow> Inr [] | Some rows \<Rightarrow> index0_all (filter truthy rows)) of
                Inl e \<Rightarrow> (Inl e, self')
              | Inr ts \<Rightarrow> (Inr ts, self'\<lparr>cached_tables := Some ts\<rparr>))))"

section \<open>The record operations\<close>

text \<open>
  The statement \<open>select\<close> builds and its bound values: the where-clause (none for
  \<open>None\<close> or an empty mapping), the limit suffix (only for a truthy limit) and the
  query text.
\<close>

definition select_statement ::
  "string \<Rightarrow> string \<Rightarrow> (string \<times> pyval) list option \<Rightarrow> int option \<Rightarrow>
   string \<times> pyval list option" where
  "select_statement table field wh limit =
     (let (where_text, passed_vars) =
            (case wh of
               None \<Rightarrow> ([], [])
             | Some [] \<Rightarrow> ([], [])
             | Some (p # ps) \<Rightarrow>
                 (case where_loop (p # ps) [] [] of
                    (conditions, vars) \<Rightarrow> ('' where '' @ join '' and '' conditions, vars)));
          vals = (if passed_vars = [] then None else Some passed_vars);
          limit_text =
            (case limit of
               None \<Rightarrow> []
             | Some n \<Rightarrow> if n \<noteq> 0 then '' limit '' @ str_int n else [])
      in (''select '' @ field @ '' from '' @ table @ where_text @ limit_text @ '';'', vals))"

text \<open>\<open>single = field != '*' and field.find(',') == -1\<close>.\<close>

definition single :: "string \<Rightarrow> bool" where
  "single field = (field \<noteq> ''*'' \<and> CHR '','' \<notin> set field)"

definition table_error :: "string \<Rightarrow> error" where
  "table_error table =
     KeyError (''Table '' @ [CHR 0x22] @ table @ [CHR 0x22] @ '' is unavailable in current database.'')"

definition select ::
  "'db driver \<Rightarrow> 'db database \<Rightarrow> string \<Rightarrow> string \<Rightarrow> (string \<times> pyval) list option \<Rightarrow>
   int option \<Rightarrow> (error + item list) \<times> 'db database" where
  "select drv self table field wh limit =
     (case tables drv self of
        (Inl e, self1) \<Rightarrow> (Inl e, self1)
      | (Inr ts, self1) \<Rightarrow>
          (if PStr table \<notin> set ts then (Inl (table_error table), self1)
           else
             (case select_statement table field wh limit of
                (q, passed_vars) \<Rightarrow>
                  (case query drv self1 q passed_vars (single field) False of
                     (Inl e, self2) \<Rightarrow> (Inl e, self2)
                   | (Inr None, self2) \<Rightarrow> (Inr [], self2)
                   | (Inr (Some []), self2) \<Rightarrow> (Inr [], self2)
                   | (Inr (Some (x # xs)), self2) \<Rightarrow>
                       (if single field then
                          (case index0_all (x # xs) of
                             Inl e \<Rightarrow> (Inl e, self2)
                           | Inr vs \<Rightarrow> (Inr (map Scalar vs), self2))
                        else (Inr (x # xs), self2))))))"

text \<open>
  \<open>insert\<close> takes one record or a list of records; \<open>data[0]\<close> raises on an empty
  list. \<open>upsert_on\<close> counts as given when it is truthy.
\<close>

datatype insert_data = One "(string \<times> pyval) list" | Many "(string \<times> pyval) list list"

definition force_list :: "insert_data \<Rightarrow> (string \<times> pyval) list list" where
  "force_list data = (case data of One d \<Rightarrow> [d] | Many ds \<Rightarrow> ds)"

definition insert_statement ::
  "string \<Rightarrow> (string \<times> pyval) list \<Rightarrow> (string \<times> pyval) list list \<Rightarrow> string option \<Rightarrow>
   string \<times> pyval list" where
  "insert_statement table first data upsert_on =
     (let kls = map fst first;
          ks = ''('' @ join '', '' kls @ '')'';
          kvs = ''('' @ join '', '' (map (\<lambda>_. ''%s'') kls) @ '')'';
          vks = join '', '' (map (\<lambda>_. kvs) data);
          vs = concat (map (map snd) data);
          ex_ks = ''('' @ join '', '' (map (\<lambda>k. ''EXCLUDED.'' @ k) kls) @ '')'';
          collision =
            (case upsert_on of
               None \<Rightarrow> ''DO NOTHING''
             | Some u \<Rightarrow>
                 if u = [] then ''DO NOTHING''
                 else ''('' @ u @ '') DO UPDATE SET '' @ ks @ '' = '' @ ex_ks)
      in (''insert into '' @ table @ '' '' @ ks @ '' VALUES '' @ vks @ '' ON CONFLICT ''
            @ collision @ '';'', vs))"

definition insert ::
  "'db driver \<Rightarrow> 'db database \<Rightarrow> string \<Rightarrow> insert_data \<Rightarrow> string option \<Rightarrow>
   (error + unit) \<times> 'db database" where
  "insert drv self table data upsert_on =
     (case force_list data of
        [] \<Rightarrow> (Inl IndexError, self)
      | first # rest \<Rightarrow>
          (case insert_statement table first (first # rest) upsert_on of
             (q, vs) \<Rightarrow>
               (case query drv self q (Some vs) False True of
                  (Inl e, self') \<Rightarrow> (Inl e, self')
                | (Inr resp, self') \<Rightarrow> (Inr (), self'))))"

text \<open>The loop of \<open>delete\<close> over \<open>where.items()\<close>, and \<open>delete\<close>.\<close>

fun delete_loop ::
  "(string \<times> pyval) list \<Rightarrow> string list \<Rightarrow> pyval list \<Rightarrow> string list \<times> pyval list" where
  "delete_loop [] conditions passed_vars = (conditions, passed_vars)"
| "delete_loop ((k, v) # rest) conditions passed_vars =
     (let comparator = (if is_str v then ''like'' else ''is'')
      in delete_loop rest (conditions @ [k @ '' '' @ comparator @ '' %s'']) (passed_vars @ [v]))"

definition delete_statement :: "string \<Rightarrow> (string \<times> pyval) list \<Rightarrow> string \<times> pyval list" where
  "delete_statement table wh =
     (case delete_loop wh [] [] of
        (conditions, passed_vars) \<Rightarrow>
          (''delete from '' @ table @ '' where '' @ join '' and '' conditions, passed_vars))"

definition delete ::
  "'db driver \<Rightarrow> 'db database \<Rightarrow> string \<Rightarrow> (string \<times> pyval) list \<Rightarrow>
   (error + unit) \<times> 'db database" where
  "delete drv self table wh =
     (case delete_statement table wh of
        (q, passed_vars) \<Rightarrow>
          (case query drv self q (Some passed_vars) False False of
             (Inl e, self') \<Rightarrow> (Inl e, self')
           | (Inr resp, self') \<Rightarrow> (Inr (), self')))"

section \<open>Fixtures for running the model\<close>

text \<open>
  A driver that answers each statement from a table of canned responses and counts the
  statements it has run; the attributes as \<open>__init__\<close> leaves them before its first
  query; a layer whose cache already holds one table; and a where-mapping with one value
  of each shape.
\<close>

definition canned :: "(string \<times> response) list \<Rightarrow> nat driver" where
  "canned answers n q vals =
     (case map_of answers q of
        Some r \<Rightarrow> (r, Suc n)
      | None \<Rightarrow> (Failed ''unknown statement'', Suc n))"

definition initial :: "'db \<Rightarrow> 'db database" where
  "initial d = \<lparr>server = d, cached_tables = None, sent = [], pool_log = []\<rparr>"

definition demo_db :: "nat database" where
  "demo_db = \<lparr>server = 0, cached_tables = Some [PStr ''users''], sent = [], pool_log = []\<rparr>"

definition demo_where :: "(string \<times> pyval) list" where
  "demo_where = [(''deleted_at'', PStr ''is not null''), (''merged_at'', PStr ''is null''),
                 (''name'', PStr ''al%''), (''id'', PInt 5), (''active'', PBool True),
                 (''parent'', PNone)]"


section \<open>What one query does to the state\<close>

lemma query_state:
  "snd (query drv self q vals a n) =
     self\<lparr>server := snd (drv (server self) q vals), sent := sent self @ [(q, vals)],
          pool_log := pool_log self
            @ [GetConn, Commit, CursClose, CxnClose, PutConn \<lparr>autocommit = True, closed = True\<rparr>]\<rparr>"
  by (auto simp add: query_def cursor_def query_body_def execute_def Let_def
      split: prod.splits response.splits sum.splits)

lemma query_result:
  "fst (query drv self q vals a n) =
     (case fst (drv (server self) q vals) of
        Failed e \<Rightarrow> Inl (DriverError e)
      | NoResult \<Rightarrow> if n then Inr None else if a then Inl ProgrammingError else Inl TypeError
      | ResultSet cs rows \<Rightarrow>
          if n \<or> rows = [] then Inr None
          else if a then Inr (Some (map Tuple rows))
          else if cs \<noteq> [] then Inr (Some (map (\<lambda>row. Record (mkdict cs row)) rows))
          else Inr None)"
  by (auto simp add: query_def cursor_def query_body_def execute_def Let_def
      split: prod.splits response.splits sum.splits)

lemma query_sent: "sent (snd (query drv self q vals a n)) = sent self @ [(q, vals)]"
  by (simp add: query_state)


section \<open>The schema cache: hits and misses\<close>

lemma tables_hit: "cached_tables self = Some (t # ts) \<Longrightarrow> tables drv self = (Inr (t # ts), self)"
  by (simp add: tables_def)

lemma tables_caches: "tables drv self = (Inr ts, self') \<Longrightarrow> cached_tables self' = Some ts"
  by (auto simp add: tables_def split: option.splits list.splits prod.splits sum.splits)

lemma tables_miss_sent:
  "cached_tables self = None \<or> cached_tables self = Some [] \<Longrightarrow>
   sent (snd (tables drv self)) = sent self @ [(catalog_query, None)]"
  using query_sent [of drv self catalog_query None True False]
  by (auto simp add: tables_def split: option.splits list.splits prod.splits sum.splits)

lemma tables_sent_cases:
  "sent (snd (tables drv self)) = sent self \<or>
   sent (snd (tables drv self)) = sent self @ [(catalog_query, None)]"
proof (cases "cached_tables self = None \<or> cached_tables self = Some []")
  case True
  then show ?thesis by (simp add: tables_miss_sent)
next
  case False
  then obtain t ts where "cached_tables self = Some (t # ts)"
    by (cases "cached_tables self"; cases "the (cached_tables self)") auto
  then show ?thesis by (simp add: tables_hit)
qed

section \<open>The loops as maps\<close>

lemma where_loop_map:
  "where_loop items cs vs =
     (cs @ map (\<lambda>(k, v). k @ '' ''
                  @ (case get_comparator v of CTuple c w \<Rightarrow> c | CStr c \<Rightarrow> c) @ '' %s'') items,
      vs @ map (\<lambda>(k, v). case get_comparator v of CTuple c w \<Rightarrow> w | CStr c \<Rightarrow> v) items)"
  by (induction items cs vs rule: where_loop.induct) (simp_all split: comparator.splits)


lemma select_statement_where:
  assumes "items \<noteq> []"
  shows "select_statement table field (Some items) limit =
     (''select '' @ field @ '' from '' @ table @ '' where ''
        @ join '' and '' (fst (where_loop items [] []))
        @ (case limit of None \<Rightarrow> [] | Some n \<Rightarrow> if n \<noteq> 0 then '' limit '' @ str_int n else [])
        @ '';'',
      Some (snd (where_loop items [] [])))"
proof -
  obtain p ps where items: "items = p # ps"
    using assms by (cases items) auto
  have "snd (where_loop (p # ps) [] []) \<noteq> []"
    by (simp add: where_loop_map)
  then show ?thesis
    unfolding items
    by (simp add: select_statement_def where_loop_map split: option.splits prod.splits)
qed

section \<open>Select and insert on top of query\<close>

lemma select_unknown:
  assumes "tables drv self = (Inr ts, self1)" and "PStr table \<notin> set ts"
  shows "select drv self table field wh limit = (Inl (table_error table), self1)"
  using assms by (simp add: select_def)

lemma select_known:
  assumes "tables drv self = (Inr ts, self1)" and "PStr table \<in> set ts"
  shows "select drv self table field wh limit =
     (case query drv self1 (fst (select_statement table field wh limit))
             (snd (select_statement table field wh limit)) (single field) False of
        (Inl e, self2) \<Rightarrow> (Inl e, self2)
      | (Inr None, self2) \<Rightarrow> (Inr [], self2)
      | (Inr (Some []), self2) \<Rightarrow> (Inr [], self2)
      | (Inr (Some (x # xs)), self2) \<Rightarrow>
          (if single field then
             (case index0_all (x # xs) of
                Inl e \<Rightarrow> (Inl e, self2)
              | Inr vs \<Rightarrow> (Inr (map Scalar vs), self2))
           else (Inr (x # xs), self2)))"
  using assms by (simp add: select_def split: prod.splits)

lemma select_statement_limit0:
  "select_statement table field wh (Some 0) = select_statement table field wh None"
  by (simp add: select_statement_def)

lemma index0_all_tuples:
  "[] \<notin> set rows \<Longrightarrow> index0_all (map Tuple rows) = Inr (map hd rows)"
proof (induction rows)
  case Nil
  then show ?case by simp
next
  case (Cons r rows)
  then obtain x xs where "r = x # xs" by (cases r) auto
  with Cons show ?case by simp
qed

lemma insert_result:
  "force_list data = first # rest \<Longrightarrow>
   insert drv self table data upsert_on =
     (case query drv self (fst (insert_statement table first (first # rest) upsert_on))
             (Some (snd (insert_statement table first (first # rest) upsert_on))) False True of
        (Inl e, self') \<Rightarrow> (Inl e, self')
      | (Inr resp, self') \<Rightarrow> (Inr (), self'))"
  by (simp add: insert_def split: prod.splits)

lemma insert_sent:
  "force_list data = first # rest \<Longrightarrow>
   sent (snd (insert drv self table data upsert_on)) =
     sent self @ [(fst (insert_statement table first (first # rest) upsert_on),
                   Some (snd (insert_statement table first (first # rest) upsert_on)))]"
  using query_sent [of drv self "fst (insert_statement table first (first # rest) upsert_on)"
                       "Some (snd (insert_statement table first (first # rest) upsert_on))" False True]
  by (auto simp add: insert_result split: prod.splits sum.splits)

lemma insert_outcome:
  "force_list data = first # rest \<Longrightarrow>
   fst (insert drv self table data upsert_on) = Inr () \<or>
   (\<exists>e. fst (insert drv self table data upsert_on) = Inl (DriverError e))"
  using query_result [of drv self "fst (insert_statement table first (first # rest) upsert_on)"
                       "Some (snd (insert_statement table first (first # rest) upsert_on))" False True]
  by (auto simp add: insert_result split: prod.splits sum.splits response.splits)

lemma insert_statement_text:
  "insert_statement table first data upsert_on =
     (''insert into '' @ table @ '' ('' @ join '', '' (map fst first) @ '') VALUES ''
        @ join '', '' (replicate (length data)
                        (''('' @ join '', '' (replicate (length first) ''%s'') @ '')''))
        @ '' ON CONFLICT ''
        @ (case upsert_on of
             None \<Rightarrow> ''DO NOTHING''
           | Some u \<Rightarrow>
               if u = [] then ''DO NOTHING''
               else ''('' @ u @ '') DO UPDATE SET ('' @ join '', '' (map fst first) @ '') = (''
                    @ join '', '' (map (\<lambda>p. ''EXCLUDED.'' @ fst p) first) @ '')'')
        @ '';'',
      concat (map (map snd) data))"
  by (simp add: insert_statement_def Let_def map_replicate_const comp_def split: option.splits)


section \<open>The claims\<close>

subsection \<open>C1: the cursor scope and the pool\<close>



subsection \<open>C2: unknown tables\<close>

text \<open>
  Claim C2, as the code has it: when the table is not among the names the schema cache
  returns, \<open>select\<close> fails with the layer's own \<open>KeyError\<close> and sends no select
  statement (the only statement that can have been sent is the catalog query that fills
  the cache). \<open>insert\<close> does not consult the cache: for a non-empty batch it always
  sends its statement, and it returns either nothing or the driver's error, never the
  layer's \<open>KeyError\<close>.
\<close>

theorem unknown_table_select_raises_insert_sends:
  "(tables drv self = (Inr ts, self1) \<and> PStr table \<notin> set ts \<longrightarrow>
      select drv self table field wh limit = (Inl (table_error table), self1) \<and>
      (sent self1 = sent self \<or> sent self1 = sent self @ [(catalog_query, None)]))
   \<and> (force_list data = first # rest \<longrightarrow>
      sent (snd (insert drv self table data upsert_on)) =
        sent self @ [(fst (insert_statement table first (first # rest) upsert_on),
                      Some (snd (insert_statement table first (first # rest) upsert_on)))] \<and>
      (fst (insert drv self table data upsert_on) = Inr () \<or>
       (\<exists>e. fst (insert drv self table data upsert_on) = Inl (DriverError e))))"
proof (intro conjI impI)
  assume a: "tables drv self = (Inr ts, self1) \<and> PStr table \<notin> set ts"
  then show "select drv self table field wh limit = (Inl (table_error table), self1)"
    by (simp add: select_unknown)
  from a tables_sent_cases [of drv self]
  show "sent self1 = sent self \<or> sent self1 = sent self @ [(catalog_query, None)]"
    by simp
next
  assume "force_list data = first # rest"
  then show "sent (snd (insert drv self table data upsert_on)) =
        sent self @ [(fst (insert_statement table first (first # rest) upsert_on),
                      Some (snd (insert_statement table first (first # rest) upsert_on)))]"
    by (rule insert_sent)
next
  assume "force_list data = first # rest"
  then show "fst (insert drv self table data upsert_on) = Inr () \<or>
       (\<exists>e. fst (insert drv self table data upsert_on) = Inl (DriverError e))"
    by (rule insert_outcome)
qed

theorem unknown_table_select_raises_insert_sends_witness:
  "select (canned []) demo_db ''ghost'' ''*'' None None = (Inl (table_error ''ghost''), demo_db)
   \<and> sent (snd (insert (canned []) demo_db ''ghost'' (One [(''a'', PInt 1)]) None)) =
       [(''insert into ghost (a) VALUES (%s) ON CONFLICT DO NOTHING;'', Some [PInt 1])]
   \<and> (fst (insert (canned []) demo_db ''ghost'' (One [(''a'', PInt 1)]) None) = Inr () \<or>
       (\<exists>e. fst (insert (canned []) demo_db ''ghost'' (One [(''a'', PInt 1)]) None)
              = Inl (DriverError e)))"
proof -
  have t: "tables (canned []) demo_db = (Inr [PStr ''users''], demo_db)
           \<and> PStr ''ghost'' \<notin> set [PStr ''users'']"
    by (simp add: tables_def demo_db_def)
  have f: "force_list (One [(''a'', PInt 1)]) = [(''a'', PInt 1)] # []"
    by (simp add: force_list_def)
  have s: "sent demo_db = []"
    by (simp add: demo_db_def)
  from unknown_table_select_raises_insert_sends
    [of "canned []" demo_db "[PStr ''users'']" demo_db "''ghost''" "''*''" None None
        "One [(''a'', PInt 1)]" "[(''a'', PInt 1)]" "[]" None] t f s
  show ?thesis
    by (simp add: insert_statement_def)
qed

text \<open>
  Against C2 as stated: with \<open>ghost\<close> absent from the cache, \<open>insert\<close> sends its
  statement to the driver and, when the driver accepts it, returns normally.
\<close>

theorem insert_unknown_table_counterexample:
  "PStr ''ghost'' \<notin> set (the (cached_tables demo_db))
   \<and> insert (canned [(''insert into ghost (a) VALUES (%s) ON CONFLICT DO NOTHING;'', NoResult)])
        demo_db ''ghost'' (One [(''a'', PInt 1)]) None
     = (Inr (),
        \<lparr>server = 1, cached_tables = Some [PStr ''users''],
         sent = [(''insert into ghost (a) VALUES (%s) ON CONFLICT DO NOTHING;'', Some [PInt 1])],
         pool_log = [GetConn, Commit, CursClose, CxnClose,
                     PutConn \<lparr>autocommit = True, closed = True\<rparr>]\<rparr>)"
  by (simp add: insert_def force_list_def insert_statement_def query_def cursor_def query_body_def
        execute_def canned_def demo_db_def)

subsection \<open>C3 and C4: the comparator of a select predicate\<close>

text \<open>
  Claim C3: for the pair \<open>(k, v)\<close> at any position of a select where-mapping, the
  condition text and the bound value at that position are: \<open>k is not %s\<close> with a null
  when \<open>v\<close> is a string containing \<open>null\<close> and \<open>not\<close>; \<open>k is %s\<close> with a null when
  it is a string containing \<open>null\<close> but not \<open>not\<close>; \<open>k like %s\<close> with the string
  itself for any other string; \<open>k = %s\<close> with the integer itself for an integer.
  The statement of \<open>select\<close> joins these conditions with \<open>and\<close> after \<open>where\<close>
  and binds these values in the same order.
\<close>

theorem select_comparator_priority:
  assumes "i < length items" and "items ! i = (k, v)"
  shows "(v = PStr s \<and> str_contains ''null'' s \<and> str_contains ''not'' s \<longrightarrow>
            fst (where_loop items [] []) ! i = k @ '' is not %s'' \<and>
            snd (where_loop items [] []) ! i = PNone)
       \<and> (v = PStr s \<and> str_contains ''null'' s \<and> \<not> str_contains ''not'' s \<longrightarrow>
            fst (where_loop items [] []) ! i = k @ '' is %s'' \<and>
            snd (where_loop items [] []) ! i = PNone)
       \<and> (v = PStr s \<and> \<not> str_contains ''null'' s \<longrightarrow>
            fst (where_loop items [] []) ! i = k @ '' like %s'' \<and>
            snd (where_loop items [] []) ! i = PStr s)
       \<and> (v = PInt n \<longrightarrow>
            fst (where_loop items [] []) ! i = k @ '' = %s'' \<and>
            snd (where_loop items [] []) ! i = PInt n)
       \<and> select_statement table field (Some items) limit =
           (''select '' @ field @ '' from '' @ table @ '' where ''
              @ join '' and '' (fst (where_loop items [] []))
              @ (case limit of None \<Rightarrow> [] | Some n \<Rightarrow> if n \<noteq> 0 then '' limit '' @ str_int n else [])
              @ '';'',
            Some (snd (where_loop items [] [])))"
proof -
  from assms(1) have "items \<noteq> []" by auto
  then have "select_statement table field (Some items) limit =
           (''select '' @ field @ '' from '' @ table @ '' where ''
              @ join '' and '' (fst (where_loop items [] []))
              @ (case limit of None \<Rightarrow> [] | Some n \<Rightarrow> if n \<noteq> 0 then '' limit '' @ str_int n else [])
              @ '';'',
            Some (snd (where_loop items [] [])))"
    by (rule select_statement_where)
  with assms show ?thesis by (simp add: where_loop_map)
qed

theorem select_comparator_priority_witness:
  "fst (where_loop demo_where [] []) ! 0 = ''deleted_at is not %s'' \<and>
   snd (where_loop demo_where [] []) ! 0 = PNone \<and>
   fst (where_loop demo_where [] []) ! 1 = ''merged_at is %s'' \<and>
   snd (where_loop demo_where [] []) ! 1 = PNone \<and>
   fst (where_loop demo_where [] []) ! 2 = ''name like %s'' \<and>
   snd (where_loop demo_where [] []) ! 2 = PStr ''al%'' \<and>
   fst (where_loop demo_where [] []) ! 3 = ''id = %s'' \<and>
   snd (where_loop demo_where [] []) ! 3 = PInt 5"
proof -
  have len: "0 < length demo_where" "1 < length demo_where" "2 < length demo_where"
    "3 < length demo_where"
    by (simp_all add: demo_where_def)
  have at: "demo_where ! 0 = (''deleted_at'', PStr ''is not null'')"
    "demo_where ! 1 = (''merged_at'', PStr ''is null'')"
    "demo_where ! 2 = (''name'', PStr ''al%'')"
    "demo_where ! 3 = (''id'', PInt 5)"
    by (simp_all add: demo_where_def)
  from select_comparator_priority [OF len(1) at(1), of "''is not null''" 0]
    select_comparator_priority [OF len(2) at(2), of "''is null''" 0]
    select_comparator_priority [OF len(3) at(3), of "''al%''" 0]
    select_comparator_priority [OF len(4) at(4), of "[]" 5]
  show ?thesis by simp
qed

text \<open>
  Claim C4, as the code has it: a boolean is an \<open>int\<close> for \<open>isinstance\<close>, so a boolean
  value in a select where-mapping takes the integer case: the condition is \<open>k = %s\<close> with
  the boolean bound. The default \<open>k is %s\<close> is what a value that is neither a string nor
  an integer gets, bound as it is.
\<close>

theorem select_comparator_boolean:
  assumes "i < length items" and "items ! i = (k, v)"
  shows "(v = PBool b \<longrightarrow>
            fst (where_loop items [] []) ! i = k @ '' = %s'' \<and>
            snd (where_loop items [] []) ! i = PBool b)
       \<and> (\<not> is_str v \<and> \<not> is_int v \<longrightarrow>
            fst (where_loop items [] []) ! i = k @ '' is %s'' \<and>
            snd (where_loop items [] []) ! i = v)"
  using assms by (cases v) (simp_all add: where_loop_map)

theorem select_comparator_boolean_witness:
  "fst (where_loop demo_where [] []) ! 4 = ''active = %s'' \<and>
   snd (where_loop demo_where [] []) ! 4 = PBool True \<and>
   fst (where_loop demo_where [] []) ! 5 = ''parent is %s'' \<and>
   snd (where_loop demo_where [] []) ! 5 = PNone"
proof -
  have len: "4 < length demo_where" "5 < length demo_where"
    by (simp_all add: demo_where_def)
  have at: "demo_where ! 4 = (''active'', PBool True)" "demo_where ! 5 = (''parent'', PNone)"
    by (simp_all add: demo_where_def)
  from select_comparator_boolean [OF len(1) at(1), of True]
    select_comparator_boolean [OF len(2) at(2), of True]
  show ?thesis by simp
qed

text \<open>Against C4 as stated: the comparator inferred for \<open>True\<close> is not \<open>is\<close>.\<close>

theorem select_comparator_boolean_counterexample:
  "where_loop [(''active'', PBool True)] [] [] \<noteq> ([''active is %s''], [PBool True])"
  by simp


subsection \<open>C5: the shape of what select returns\<close>

text \<open>
  Claim C5: let the table be known and the driver answer the select statement with a
  result set. When exactly one concrete field is requested (not \<open>*\<close>, no comma) and
  every row carries a value, \<open>select\<close> returns the flat sequence of the rows' first
  values, not records; and when the result set has no rows, \<open>select\<close> returns the empty
  sequence, whatever fields were requested.
\<close>

theorem select_single_field_flat_and_no_rows_empty:
  assumes "tables drv self = (Inr ts, self1)" and "PStr table \<in> set ts"
    and "fst (drv (server self1) (fst (select_statement table field wh limit))
                (snd (select_statement table field wh limit))) = ResultSet cols rows"
  shows "(single field \<and> [] \<notin> set rows \<longrightarrow>
            fst (select drv self table field wh limit) = Inr (map (\<lambda>r. Scalar (hd r)) rows))
       \<and> (rows = [] \<longrightarrow> fst (select drv self table field wh limit) = Inr [])"
proof -
  let ?q = "fst (select_statement table field wh limit)"
  let ?v = "snd (select_statement table field wh limit)"
  obtain r self2 where q: "query drv self1 ?q ?v (single field) False = (r, self2)"
    by (cases "query drv self1 ?q ?v (single field) False")
  have r: "r = (if rows = [] then Inr None
                else if single field then Inr (Some (map Tuple rows))
                else if cols \<noteq> [] then Inr (Some (map (\<lambda>row. Record (mkdict cols row)) rows))
                else Inr None)"
    using query_result [of drv self1 ?q ?v "single field" False] q assms(3) by simp
  have sel: "select drv self table field wh limit =
     (case (r, self2) of
        (Inl e, self2) \<Rightarrow> (Inl e, self2)
      | (Inr None, self2) \<Rightarrow> (Inr [], self2)
      | (Inr (Some []), self2) \<Rightarrow> (Inr [], self2)
      | (Inr (Some (x # xs)), self2) \<Rightarrow>
          (if single field then
             (case index0_all (x # xs) of
                Inl e \<Rightarrow> (Inl e, self2)
              | Inr vs \<Rightarrow> (Inr (map Scalar vs), self2))
           else (Inr (x # xs), self2)))"
    using select_known [OF assms(1,2)] q by simp
  have empty: "rows = [] \<longrightarrow> fst (select drv self table field wh limit) = Inr []"
    using sel r by simp
  have flat: "single field \<and> [] \<notin> set rows \<longrightarrow>
            fst (select drv self table field wh limit) = Inr (map (\<lambda>r. Scalar (hd r)) rows)"
  proof
    assume a: "single field \<and> [] \<notin> set rows"
    show "fst (select drv self table field wh limit) = Inr (map (\<lambda>r. Scalar (hd r)) rows)"
    proof (cases rows)
      case Nil
      then show ?thesis using empty by simp
    next
      case (Cons row more)
      then have "r = Inr (Some (Tuple row # map Tuple more))" using r a by simp
      moreover have "index0_all (Tuple row # map Tuple more) = Inr (map hd rows)"
        using index0_all_tuples [of rows] a Cons by simp
      ultimately show ?thesis using sel a by (simp add: comp_def)
    qed
  qed
  from flat empty show ?thesis by simp
qed

theorem select_single_field_flat_and_no_rows_empty_witness:
  "fst (select (canned [(''select id from users;'', ResultSet [''id''] [[PInt 1], [PInt 2]])])
          demo_db ''users'' ''id'' None None) = Inr [Scalar (PInt 1), Scalar (PInt 2)]
   \<and> fst (select (canned [(''select * from users;'', ResultSet [''id'', ''name''] [])])
          demo_db ''users'' ''*'' None None) = Inr []"
proof -
  have t: "tables (canned [(''select id from users;'', ResultSet [''id''] [[PInt 1], [PInt 2]])])
             demo_db = (Inr [PStr ''users''], demo_db)"
    by (simp add: tables_def demo_db_def)
  have u: "tables (canned [(''select * from users;'', ResultSet [''id'', ''name''] [])])
             demo_db = (Inr [PStr ''users''], demo_db)"
    by (simp add: tables_def demo_db_def)
  have m: "PStr ''users'' \<in> set [PStr ''users'']"
    by simp
  have a: "fst (canned [(''select id from users;'', ResultSet [''id''] [[PInt 1], [PInt 2]])]
                 (server demo_db) (fst (select_statement ''users'' ''id'' None None))
                 (snd (select_statement ''users'' ''id'' None None)))
           = ResultSet [''id''] [[PInt 1], [PInt 2]]"
    by (simp add: canned_def select_statement_def)
  have b: "fst (canned [(''select * from users;'', ResultSet [''id'', ''name''] [])]
                 (server demo_db) (fst (select_statement ''users'' ''*'' None None))
                 (snd (select_statement ''users'' ''*'' None None)))
           = ResultSet [''id'', ''name''] []"
    by (simp add: canned_def select_statement_def)
  from select_single_field_flat_and_no_rows_empty [OF t m a]
    select_single_field_flat_and_no_rows_empty [OF u m b]
  show ?thesis by (simp add: single_def)
qed

subsection \<open>C6: the comparator of a delete predicate\<close>



subsection \<open>C7: the insert statement\<close>

text \<open>
  Claim C7: for a non-empty batch, \<open>insert\<close> sends exactly one statement. Its column list
  is the first record's keys; its VALUES part is one parenthesised group per record, each
  with one placeholder per key of the first record; its bound values are the records'
  values concatenated in row order; and its conflict clause is \<open>DO NOTHING\<close> when
  \<open>upsert_on\<close> is absent (or the empty string) and otherwise
  \<open>(upsert_on) DO UPDATE SET\<close> of every column from its \<open>EXCLUDED\<close> counterpart.
\<close>

theorem insert_statement_shape:
  assumes "force_list data = first # rest"
  shows "sent (snd (insert drv self table data upsert_on)) = sent self @
     [(''insert into '' @ table @ '' ('' @ join '', '' (map fst first) @ '') VALUES ''
        @ join '', '' (replicate (Suc (length rest))
                        (''('' @ join '', '' (replicate (length first) ''%s'') @ '')''))
        @ '' ON CONFLICT ''
        @ (case upsert_on of
             None \<Rightarrow> ''DO NOTHING''
           | Some u \<Rightarrow>
               if u = [] then ''DO NOTHING''
               else ''('' @ u @ '') DO UPDATE SET ('' @ join '', '' (map fst first) @ '') = (''
                    @ join '', '' (map (\<lambda>p. ''EXCLUDED.'' @ fst p) first) @ '')'')
        @ '';'',
      Some (concat (map (map snd) (first # rest))))]"
  using insert_sent [OF assms, of drv self table upsert_on]
  by (simp add: insert_statement_text)

theorem insert_statement_shape_witness:
  "sent (snd (insert (canned []) demo_db ''t''
            (Many [[(''a'', PInt 1), (''b'', PInt 2)], [(''a'', PInt 3), (''b'', PInt 4)]])
            (Some ''a''))) =
     [(''insert into t (a, b) VALUES (%s, %s), (%s, %s) ON CONFLICT (a) DO UPDATE SET (a, b) = (EXCLUDED.a, EXCLUDED.b);'',
       Some [PInt 1, PInt 2, PInt 3, PInt 4])]
   \<and> sent (snd (insert (canned []) demo_db ''t'' (One [(''a'', PInt 1)]) None)) =
     [(''insert into t (a) VALUES (%s) ON CONFLICT DO NOTHING;'', Some [PInt 1])]"
proof -
  have f: "force_list (Many [[(''a'', PInt 1), (''b'', PInt 2)], [(''a'', PInt 3), (''b'', PInt 4)]])
           = [(''a'', PInt 1), (''b'', PInt 2)] # [[(''a'', PInt 3), (''b'', PInt 4)]]"
    by (simp add: force_list_def)
  have g: "force_list (One [(''a'', PInt 1)]) = [(''a'', PInt 1)] # []"
    by (simp add: force_list_def)
  have s: "sent demo_db = []"
    by (simp add: demo_db_def)
  from insert_statement_shape [OF f, of "canned []" demo_db "''t''" "Some ''a''"]
    insert_statement_shape [OF g, of "canned []" demo_db "''t''" None] s
  show ?thesis by (simp add: eval_nat_numeral)
qed

subsection \<open>C8: when the schema cache queries the catalog\<close>

text \<open>
  Claim C8, as the code has it: once a call of \<open>tables\<close> has returned a non-empty set
  of names, every later call returns that set and leaves the state as it is, so no catalog
  query is sent again; while the cached value is missing or empty, each call sends the
  catalog query.
\<close>

theorem tables_cached_once_nonempty:
  "(tables drv self = (Inr ts, self') \<and> ts \<noteq> [] \<longrightarrow> tables drv self' = (Inr ts, self'))
   \<and> (cached_tables self = None \<or> cached_tables self = Some [] \<longrightarrow>
        sent (snd (tables drv self)) = sent self @ [(catalog_query, None)])"
proof (intro conjI impI)
  assume a: "tables drv self = (Inr ts, self') \<and> ts \<noteq> []"
  then have "cached_tables self' = Some ts" using tables_caches by blast
  moreover from a obtain t rest where "ts = t # rest" by (cases ts) auto
  ultimately show "tables drv self' = (Inr ts, self')" by (simp add: tables_hit)
next
  assume "cached_tables self = None \<or> cached_tables self = Some []"
  then show "sent (snd (tables drv self)) = sent self @ [(catalog_query, None)]"
    by (rule tables_miss_sent)
qed

theorem tables_cached_once_nonempty_witness:
  "tables (canned [(catalog_query, ResultSet [''table_name''] [[PStr ''users'']])])
     \<lparr>server = 1, cached_tables = Some [PStr ''users''], sent = [(catalog_query, None)],
      pool_log = [GetConn, Commit, CursClose, CxnClose,
                  PutConn \<lparr>autocommit = True, closed = True\<rparr>]\<rparr>
   = (Inr [PStr ''users''],
      \<lparr>server = 1, cached_tables = Some [PStr ''users''], sent = [(catalog_query, None)],
       pool_log = [GetConn, Commit, CursClose, CxnClose,
                   PutConn \<lparr>autocommit = True, closed = True\<rparr>]\<rparr>)
   \<and> sent (snd (tables (canned [(catalog_query, ResultSet [''table_name''] [[PStr ''users'']])])
                  (initial 0))) = [(catalog_query, None)]"
proof -
  let ?drv = "canned [(catalog_query, ResultSet [''table_name''] [[PStr ''users'']])]"
  let ?after = "\<lparr>server = 1, cached_tables = Some [PStr ''users''], sent = [(catalog_query, None)],
      pool_log = [GetConn, Commit, CursClose, CxnClose,
                  PutConn \<lparr>autocommit = True, closed = True\<rparr>]\<rparr> :: nat database"
  have first: "tables ?drv (initial 0) = (Inr [PStr ''users''], ?after)
               \<and> [PStr ''users''] \<noteq> []"
    by (simp add: tables_def initial_def query_def cursor_def query_body_def execute_def canned_def)
  have miss: "cached_tables (initial (0::nat)) = None \<or> cached_tables (initial (0::nat)) = Some []"
    by (simp add: initial_def)
  have s: "sent (initial (0::nat)) = []"
    by (simp add: initial_def)
  from tables_cached_once_nonempty [of ?drv "initial 0" "[PStr ''users'']" ?after] first miss s
  show ?thesis by simp
qed

text \<open>
  Against C8 as stated: when the first catalog query returns no table, the second call of
  \<open>tables\<close> sends the catalog query again.
\<close>

theorem tables_empty_requeries_counterexample:
  "sent (snd (tables (canned [(catalog_query, ResultSet [''table_name''] [])])
           (snd (tables (canned [(catalog_query, ResultSet [''table_name''] [])]) (initial 0)))))
   = [(catalog_query, None), (catalog_query, None)]"
proof -
  let ?drv = "canned [(catalog_query, ResultSet [''table_name''] [])]"
  have q: "fst (query ?drv s catalog_query None True False) = Inr None" for s
    by (simp add: query_result canned_def)
  have t: "cached_tables s = None \<or> cached_tables s = Some [] \<Longrightarrow>
           cached_tables (snd (tables ?drv s)) = Some []" for s
    using q [of s] by (auto simp add: tables_def split: prod.splits sum.splits option.splits)
  have c1: "cached_tables (snd (tables ?drv (initial 0))) = Some []"
    by (rule t) (simp add: initial_def)
  have s1: "sent (snd (tables ?drv (initial 0))) = [(catalog_query, None)]"
    using tables_miss_sent [of "initial 0" ?drv] by (simp add: initial_def)
  show ?thesis
    using tables_miss_sent [of "snd (tables ?drv (initial 0))" ?drv] c1 s1 by simp
qed

subsection \<open>C9: what query returns for no rows\<close>




subsection \<open>C10: a limit of zero\<close>

text \<open>
  Claim C10: \<open>select\<close> with a limit of zero behaves exactly as \<open>select\<close> with no limit:
  the statement has no limit suffix, and for a known table that statement is the one sent
  to the driver, so all rows come back.
\<close>

theorem select_limit_zero_is_no_limit:
  "select drv self table field wh (Some 0) = select drv self table field wh None
   \<and> select_statement table field None (Some 0)
       = (''select '' @ field @ '' from '' @ table @ '';'', None)
   \<and> (tables drv self = (Inr ts, self1) \<and> PStr table \<in> set ts \<longrightarrow>
        sent (snd (select drv self table field wh (Some 0))) =
          sent self1 @ [select_statement table field wh None])"
proof (intro conjI impI)
  show "select drv self table field wh (Some 0) = select drv self table field wh None"
    by (simp only: select_def select_statement_limit0)
  show "select_statement table field None (Some 0)
          = (''select '' @ field @ '' from '' @ table @ '';'', None)"
    by (simp add: select_statement_def)
next
  assume a: "tables drv self = (Inr ts, self1) \<and> PStr table \<in> set ts"
  let ?q = "fst (select_statement table field wh None)"
  let ?v = "snd (select_statement table field wh None)"
  have "sent (snd (select drv self table field wh None)) =
          sent (snd (query drv self1 ?q ?v (single field) False))"
    using a by (auto simp add: select_known split: prod.splits sum.splits option.splits list.splits)
  then show "sent (snd (select drv self table field wh (Some 0))) =
          sent self1 @ [select_statement table field wh None]"
    by (simp only: query_sent select_def select_statement_limit0 prod.collapse)
qed

theorem select_limit_zero_is_no_limit_witness:
  "select (canned [(''select id from users;'', ResultSet [''id''] [[PInt 1], [PInt 2]])])
     demo_db ''users'' ''id'' None (Some 0)
   = select (canned [(''select id from users;'', ResultSet [''id''] [[PInt 1], [PInt 2]])])
     demo_db ''users'' ''id'' None None
   \<and> sent (snd (select (canned [(''select id from users;'', ResultSet [''id''] [[PInt 1], [PInt 2]])])
                  demo_db ''users'' ''id'' None (Some 0)))
     = [(''select id from users;'', None)]"
proof -
  let ?drv = "canned [(''select id from users;'', ResultSet [''id''] [[PInt 1], [PInt 2]])]"
  have t: "tables ?drv demo_db = (Inr [PStr ''users''], demo_db)
           \<and> PStr ''users'' \<in> set [PStr ''users'']"
    by (simp add: tables_def demo_db_def)
  have s: "sent demo_db = []"
    by (simp add: demo_db_def)
  from select_limit_zero_is_no_limit
    [of ?drv demo_db "''users''" "''id''" None "[PStr ''users'']" demo_db] t s
  show ?thesis by (auto simp add: select_statement_def)
qed

end
